theory Spec2Isabelle
  imports Complex_Main
begin

section \<open>Python library functions used by the node\<close>

text \<open>
  A Python string is the list of its code points. The paths, names and messages below are
  strings of characters, a character standing for a code point below 256. The colour
  strings, which line 41 hands to \<open>int\<close>, are lists of code points of any size, since
  \<open>int\<close> reads digits and spaces of all of Unicode.
\<close>

type_synonym ustring = "nat list"

definition codepoints :: "string \<Rightarrow> ustring" where
  "codepoints s = map of_char s"

text \<open>
  \<open>int(s, 16)\<close> first turns the string into ASCII: a code point below 127 stays, a
  Unicode space becomes a space, a Unicode decimal digit becomes the ASCII digit of its
  value, and anything else becomes a question mark, which no number holds. The decimal
  digits of Unicode 14.0, which CPython 3.11 has, are the blocks of ten code points that
  start at the code points listed; the spaces from 127 on are listed too.
\<close>

definition decimal_block_starts :: "nat list" where
  "decimal_block_starts =
    [48, 1632, 1776, 1984, 2406, 2534, 2662, 2790, 2918, 3046, 3174, 3302, 3430, 3558,
     3664, 3792, 3872, 4160, 4240, 6112, 6160, 6470, 6608, 6784, 6800, 6992, 7088,
     7232, 7248, 42528, 43216, 43264, 43472, 43504, 43600, 44016, 65296, 66720, 68912,
     69734, 69872, 69942, 70096, 70384, 70736, 70864, 71248, 71360, 71472, 71904,
     72016, 72784, 73040, 73120, 92768, 92864, 93008, 120782, 120792, 120802, 120812,
     120822, 123200, 123632, 125264, 130032]"

definition unicode_decimal :: "nat \<Rightarrow> nat option" where
  "unicode_decimal c =
     (case find (\<lambda>s. s \<le> c \<and> c < s + 10) decimal_block_starts of
        None \<Rightarrow> None
      | Some s \<Rightarrow> Some (c - s))"

definition unicode_space :: "nat \<Rightarrow> bool" where
  "unicode_space c =
     (c \<in> set [133, 160, 5760, 8192, 8193, 8194, 8195, 8196, 8197, 8198, 8199, 8200,
               8201, 8202, 8232, 8233, 8239, 8287, 12288])"

definition to_ascii :: "nat \<Rightarrow> char" where
  "to_ascii c =
     (if c < 127 then char_of c
      else if unicode_space c then CHR '' ''
      else case unicode_decimal c of
             Some d \<Rightarrow> char_of (48 + d)
           | None \<Rightarrow> CHR ''?'')"

text \<open>
  The ASCII text is then parsed: ASCII whitespace around the literal, one optional sign,
  an optional \<open>0x\<close> prefix, hexadecimal digits with single underscores between them.
  \<open>None\<close> is the \<open>ValueError\<close> that \<open>int\<close> raises.
\<close>

definition is_space :: "char \<Rightarrow> bool" where
  "is_space c = (let n = (of_char c :: nat) in (9 \<le> n \<and> n \<le> 13) \<or> n = 32)"

definition hexval :: "char \<Rightarrow> nat option" where
  "hexval c = (let n = (of_char c :: nat) in
     if 48 \<le> n \<and> n \<le> 57 then Some (n - 48)
     else if 97 \<le> n \<and> n \<le> 102 then Some (n - 87)
     else if 65 \<le> n \<and> n \<le> 70 then Some (n - 55)
     else None)"

fun scan_digits :: "string \<Rightarrow> char \<Rightarrow> nat \<Rightarrow> nat \<Rightarrow> (nat \<times> nat \<times> string) option" where
  "scan_digits [] prev n acc = (if prev = CHR ''_'' then None else Some (acc, n, []))"
| "scan_digits (c # cs) prev n acc =
     (if c = CHR ''_'' then (if prev = CHR ''_'' then None else scan_digits cs c n acc)
      else case hexval c of
             Some d \<Rightarrow> scan_digits cs c (Suc n) (16 * acc + d)
           | None \<Rightarrow> (if prev = CHR ''_'' then None else Some (acc, n, c # cs)))"

definition strip_sign :: "string \<Rightarrow> int \<times> string" where
  "strip_sign s = (case s of
      c # r \<Rightarrow> (if c = CHR ''+'' then (1, r) else if c = CHR ''-'' then (- 1, r) else (1, s))
    | [] \<Rightarrow> (1, s))"

definition strip_prefix16 :: "string \<Rightarrow> string" where
  "strip_prefix16 s = (case s of
      z # x # r \<Rightarrow>
        (if z = CHR ''0'' \<and> (x = CHR ''x'' \<or> x = CHR ''X'')
         then (case r of u # r' \<Rightarrow> (if u = CHR ''_'' then r' else r) | [] \<Rightarrow> r)
         else s)
    | _ \<Rightarrow> s)"

definition parse_unsigned16 :: "string \<Rightarrow> nat option" where
  "parse_unsigned16 s =
     (let s3 = strip_prefix16 s
      in if take 1 s3 = ''_'' then None
         else case scan_digits s3 (CHR 0x00) 0 0 of
                None \<Rightarrow> None
              | Some (v, n, rest) \<Rightarrow>
                  if n = 0 then None
                  else if dropWhile is_space rest = [] then Some v
                  else None)"

definition py_int16 :: "string \<Rightarrow> int option" where
  "py_int16 s =
     (let (sign, s2) = strip_sign (dropWhile is_space s)
      in map_option (\<lambda>v. sign * int v) (parse_unsigned16 s2))"

text \<open>\<open>int(s, 16)\<close> of a Python string.\<close>

definition int_base16 :: "ustring \<Rightarrow> int option" where
  "int_base16 s = py_int16 (map to_ascii s)"

section \<open>Colour parsing\<close>

text \<open>
  Lines 41 and 42 of \<open>generate_preview\<close>:
  \<open>tuple(int(color.lstrip('#')[i:i+2], 16) for i in (0, 2, 4))\<close>.
  \<open>lstrip('#')\<close> removes every leading \<open>#\<close>; a slice past the end is shorter or empty.
\<close>

definition lstrip_hash :: "ustring \<Rightarrow> ustring" where
  "lstrip_hash s = dropWhile (\<lambda>c. c = of_char (CHR ''#'')) s"

definition slice2 :: "'a list \<Rightarrow> nat \<Rightarrow> 'a list" where
  "slice2 s i = take 2 (drop i s)"

definition hex_to_rgb :: "ustring \<Rightarrow> (int \<times> int \<times> int) option" where
  "hex_to_rgb color =
     (let h = lstrip_hash color in
      case int_base16 (slice2 h 0) of None \<Rightarrow> None | Some r \<Rightarrow>
      case int_base16 (slice2 h 2) of None \<Rightarrow> None | Some g \<Rightarrow>
      case int_base16 (slice2 h 4) of None \<Rightarrow> None | Some b \<Rightarrow> Some (r, g, b))"

text \<open>
  The exceptions the node raises, with their messages. The specification names them by
  cause: \<open>RootNotFound\<close>, \<open>InvalidColorFormat\<close> and \<open>FontLoadFailure\<close> are
  \<open>ValueError\<close>s, \<open>FontNotFound\<close> is a \<open>FileNotFoundError\<close>.
\<close>

datatype py_exception = ValueError string | FileNotFoundError string | ZeroDivisionError

type_synonym rgb = "int \<times> int \<times> int"

definition invalid_color_msg :: string where
  "invalid_color_msg = ''Background color or text color must be a valid HEX value, e.g., #FFFFFF''"

text \<open>Lines 40 to 44: both colours are parsed inside one \<open>try\<close>, background first.\<close>

definition parse_colors :: "ustring \<Rightarrow> ustring \<Rightarrow> py_exception + (rgb \<times> rgb)" where
  "parse_colors background_color text_color =
     (case hex_to_rgb background_color of
        None \<Rightarrow> Inl (ValueError invalid_color_msg)
      | Some bg_color \<Rightarrow>
          (case hex_to_rgb text_color of
             None \<Rightarrow> Inl (ValueError invalid_color_msg)
           | Some txt_color \<Rightarrow> Inr (bg_color, txt_color)))"

text \<open>The specification's wording: a remainder of exactly six hexadecimal digits.\<close>

definition six_hex :: "ustring \<Rightarrow> bool" where
  "six_hex h = (length h = 6 \<and> list_all (\<lambda>c. c < 127 \<and> hexval (char_of c) \<noteq> None) h)"

section \<open>Strings\<close>

text \<open>\<open>str(n)\<close> of a non-negative integer, as an f-string renders it: decimal, most
  significant digit first, no leading zero.\<close>

definition digit_char :: "nat \<Rightarrow> char" where
  "digit_char d = char_of (48 + d)"

fun py_str :: "nat \<Rightarrow> string" where
  "py_str n = (if n < 10 then [digit_char n] else py_str (n div 10) @ [digit_char (n mod 10)])"

declare py_str.simps [simp del]

text \<open>\<open>str.lower\<close> on code points below 256, \<open>str.endswith\<close> with one suffix and with a
  tuple of suffixes, \<open>str.rstrip("...")\<close> (its argument is a set of characters: every
  trailing full stop goes).\<close>

definition lower_char :: "char \<Rightarrow> char" where
  "lower_char c = (let n = (of_char c :: nat) in
     if (65 \<le> n \<and> n \<le> 90) \<or> (192 \<le> n \<and> n \<le> 222 \<and> n \<noteq> 215) then char_of (n + 32) else c)"

definition lower :: "string \<Rightarrow> string" where
  "lower s = map lower_char s"

definition endswith :: "string \<Rightarrow> string \<Rightarrow> bool" where
  "endswith s suffix = (length suffix \<le> length s \<and> drop (length s - length suffix) s = suffix)"

definition endswith_any :: "string \<Rightarrow> string list \<Rightarrow> bool" where
  "endswith_any s suffixes = list_ex (endswith s) suffixes"

definition rstrip_dots :: "string \<Rightarrow> string" where
  "rstrip_dots s = rev (dropWhile (\<lambda>c. c = CHR ''.'') (rev s))"

section \<open>Statistics text\<close>

text \<open>Lines 107 to 112.\<close>

definition stats_text :: "nat \<Rightarrow> string" where
  "stats_text total_images =
     (if total_images = 0 then ''Not found any image''
      else if total_images = 1 then ''Found 1 image''
      else ''Found '' @ py_str total_images @ '' images'')"

text \<open>The value a string of decimal digits denotes, to say what \<open>py_str\<close> renders.\<close>

definition is_digit :: "char \<Rightarrow> bool" where
  "is_digit c = (48 \<le> (of_char c :: nat) \<and> (of_char c :: nat) \<le> 57)"

definition decimal_value :: "string \<Rightarrow> nat" where
  "decimal_value s = foldl (\<lambda>acc c. 10 * acc + (of_char c - 48)) 0 s"

section \<open>Text wrapping\<close>

text \<open>
  A font is what the code uses of it: the pixel width \<open>bbox[2] - bbox[0]\<close> that
  \<open>font.getbbox\<close> measures for a string. The loop of \<open>wrap_text\<close> (lines 229 to 238)
  carries \<open>lines\<close> and \<open>current_line\<close>; lines 240 to 243 close the last line.
\<close>

type_synonym font = "string \<Rightarrow> int"

fun wrap_loop :: "font \<Rightarrow> int \<Rightarrow> string \<Rightarrow> string list \<Rightarrow> string \<Rightarrow> string list" where
  "wrap_loop font max_width [] lines current_line =
     (if current_line \<noteq> [] then lines @ [current_line] else lines)"
| "wrap_loop font max_width (char # text) lines current_line =
     (let test_line = current_line @ [char];
          width = font test_line
      in if width \<le> max_width
         then wrap_loop font max_width text lines test_line
         else wrap_loop font max_width text (lines @ [current_line]) [char])"

definition wrap_text :: "string \<Rightarrow> font \<Rightarrow> int \<Rightarrow> string list" where
  "wrap_text text font max_width = wrap_loop font max_width text [] []"

text \<open>Lines 193 to 199: the lines drawn under a thumbnail.\<close>

definition caption_lines :: "string \<Rightarrow> font \<Rightarrow> int \<Rightarrow> string list" where
  "caption_lines display_name font max_width =
     (let wrapped_text = wrap_text display_name font max_width;
          wrapped_text =
            (if length wrapped_text > 2
             then (let two = take 2 wrapped_text
                   in butlast two @ [rstrip_dots (last two) @ ''...''])
             else wrapped_text)
      in take 2 wrapped_text)"

section \<open>Image discovery\<close>

text \<open>
  \<open>os.path.join\<close> of two components on a POSIX system. A directory as \<open>os.walk\<close>
  meets it: its path, the names of its entries that are not directories, and the
  sub-directories it descends into, each in listing order. \<open>os.walk\<close> is top-down: it
  yields a directory before its sub-directories, and a whole subtree before the next
  sibling. The code ignores the \<open>dirs\<close> component of what is yielded, which is left out.
\<close>

type_synonym path = string

definition os_path_join :: "path \<Rightarrow> string \<Rightarrow> path" where
  "os_path_join a b =
     (if take 1 b = ''/'' then b
      else if a = [] \<or> endswith a ''/'' then a @ b
      else a @ ''/'' @ b)"

datatype dir_tree = Dir path "string list" "dir_tree list"

fun os_walk :: "dir_tree \<Rightarrow> (path \<times> string list) list" where
  "os_walk (Dir root_dir files subdirs) = (root_dir, files) # concat (map os_walk subdirs)"

text \<open>The file system as the node consults it.\<close>

record filesystem =
  isdir :: "path \<Rightarrow> bool"
  isfile :: "path \<Rightarrow> bool"
  pexists :: "path \<Rightarrow> bool"
  listdir :: "path \<Rightarrow> string list"
  walk_tree :: "path \<Rightarrow> dir_tree"

type_synonym image_item = "path \<times> string"

definition supported_formats :: "string list" where
  "supported_formats = [''.png'', ''.jpg'', ''.jpeg'', ''.gif'', ''.tiff'', ''.webp'', ''.bmp'']"

definition is_supported :: "string \<Rightarrow> bool" where
  "is_supported f = endswith_any (lower f) supported_formats"

text \<open>Lines 49 to 52: the loop over \<open>os.walk\<close>, appending to \<open>image_files\<close>.\<close>

fun walk_loop :: "(path \<times> string list) list \<Rightarrow> image_item list list \<Rightarrow> image_item list list" where
  "walk_loop [] image_files = image_files"
| "walk_loop ((root_dir, files) # rest) image_files =
     (let subfolder_images = map (Pair root_dir) (filter is_supported files)
      in walk_loop rest
           (if subfolder_images \<noteq> [] then image_files @ [subfolder_images] else image_files))"

text \<open>Lines 47 to 56, and the total of line 58.\<close>

definition get_image_files :: "filesystem \<Rightarrow> path \<Rightarrow> bool \<Rightarrow> image_item list list" where
  "get_image_files fs folder_path include_subfolders =
     (if include_subfolders then walk_loop (os_walk (walk_tree fs folder_path)) []
      else [map (Pair folder_path)
              (filter (\<lambda>f. isfile fs (os_path_join folder_path f) \<and> is_supported f)
                 (listdir fs folder_path))])"

definition total_images :: "image_item list list \<Rightarrow> nat" where
  "total_images image_files = sum_list (map length image_files)"

text \<open>The section a visited directory gives, and whether it holds an eligible file.\<close>

definition section_of :: "path \<times> string list \<Rightarrow> image_item list" where
  "section_of d = map (Pair (fst d)) (filter is_supported (snd d))"

definition has_eligible :: "path \<times> string list \<Rightarrow> bool" where
  "has_eligible d = list_ex is_supported (snd d)"

section \<open>Geometry\<close>

text \<open>The parameter settings of lines 61 to 67.\<close>

abbreviation (input) thumbnail_size :: int where "thumbnail_size \<equiv> 256"
abbreviation (input) text_height :: int where "text_height \<equiv> 60"
abbreviation (input) grid_spacing :: int where "grid_spacing \<equiv> 48"
abbreviation (input) stats_height :: int where "stats_height \<equiv> 40"
abbreviation (input) footer_height :: int where "footer_height \<equiv> 40"
abbreviation (input) subfolder_title_height :: int where "subfolder_title_height \<equiv> 40"
abbreviation (input) line_thickness :: int where "line_thickness \<equiv> 2"

text \<open>
  Line 70, and lines 71 to 93. \<open>images_per_row\<close> is declared with a minimum of 1; at 0
  the divisions of lines 80 and 88 raise \<open>ZeroDivisionError\<close>, which nothing catches.
\<close>

definition output_width :: "nat \<Rightarrow> int" where
  "output_width images_per_row =
     int images_per_row * thumbnail_size + (int images_per_row + 1) * grid_spacing"

definition rows_for :: "nat \<Rightarrow> nat \<Rightarrow> int" where
  "rows_for n images_per_row = (int n + int images_per_row - 1) div int images_per_row"

definition output_height :: "nat \<Rightarrow> bool \<Rightarrow> image_item list list \<Rightarrow> py_exception + int" where
  "output_height images_per_row include_subfolders image_files =
     (if total_images image_files = 0
      then Inr (grid_spacing + stats_height + grid_spacing +
                line_thickness +
                grid_spacing +
                grid_spacing +
                line_thickness +
                footer_height + grid_spacing)
      else if images_per_row = 0 then Inl ZeroDivisionError
      else if include_subfolders
      then (let rows = sum_list (map (\<lambda>subfolder. rows_for (length subfolder) images_per_row) image_files)
            in Inr (grid_spacing + stats_height + grid_spacing +
                    line_thickness + grid_spacing +
                    int (length image_files) * (subfolder_title_height + grid_spacing) +
                    rows * (thumbnail_size + text_height + grid_spacing) +
                    grid_spacing + line_thickness +
                    footer_height + grid_spacing))
      else (let rows = rows_for (total_images image_files) images_per_row
            in Inr (grid_spacing + stats_height + grid_spacing +
                    line_thickness + grid_spacing +
                    rows * (thumbnail_size + text_height + grid_spacing) +
                    grid_spacing + line_thickness +
                    footer_height + grid_spacing)))"

section \<open>Floating point\<close>

text \<open>
  Lines 155 and 158 compute in binary64. \<open>fl\<close> rounds a real number to the nearest number
  with a 53-bit significand, ties to even; the exponent is not bounded, which changes
  nothing for image dimensions. Python's \<open>int / int\<close> and the product of two floats are
  correctly rounded, an \<open>int\<close> becomes a float by rounding, and \<open>int(x)\<close> of a float
  that is not negative is its floor.
\<close>

fun bit_length :: "nat \<Rightarrow> nat" where
  "bit_length n = (if n = 0 then 0 else Suc (bit_length (n div 2)))"

declare bit_length.simps [simp del]

definition ilog2 :: "real \<Rightarrow> int" where
  "ilog2 q = (if 1 \<le> q then int (bit_length (nat \<lfloor>q\<rfloor>)) - 1
              else - int (bit_length (nat (\<lceil>1 / q\<rceil> - 1))))"

definition pow2 :: "int \<Rightarrow> real" where
  "pow2 e = (if 0 \<le> e then 2 ^ nat e else 1 / 2 ^ nat (- e))"

definition round_half_even :: "real \<Rightarrow> int" where
  "round_half_even q =
     (let f = \<lfloor>q\<rfloor>; d = q - of_int f
      in if d < 1 / 2 then f else if 1 / 2 < d then f + 1
         else if even f then f else f + 1)"

definition fl :: "real \<Rightarrow> real" where
  "fl q = (if q = 0 then 0
           else (let e = ilog2 \<bar>q\<bar> - 52
                 in of_int (round_half_even (q / pow2 e)) * pow2 e))"

text \<open>\<open>int(n * (thumbnail_size / d))\<close>, for \<open>d\<close> not zero.\<close>

definition scaled :: "nat \<Rightarrow> nat \<Rightarrow> int" where
  "scaled n d = \<lfloor>fl (fl (of_nat n) * fl (of_int thumbnail_size / of_nat d))\<rfloor>"

section \<open>Thumbnails\<close>

text \<open>
  A thumbnail is described by what determines its pixels: the source image, the size it
  was resized to, whether it was cropped, the offset (where it was pasted on the square,
  or the top left corner of the crop), the size of the square and its fill colour.
\<close>

record thumbnail =
  source :: path
  resized_to :: "int \<times> int"
  cropped :: bool
  offset :: "int \<times> int"
  square :: "int \<times> int"
  fill :: rgb

text \<open>
  Lines 159 to 172. \<open>Image.resize\<close> raises \<open>ValueError\<close> when a side of the requested
  size is below 1.
\<close>

definition resize_onto_square :: "path \<Rightarrow> int \<Rightarrow> int \<Rightarrow> rgb \<Rightarrow> py_exception + thumbnail" where
  "resize_onto_square image_path new_width new_height txt_color =
     (if new_width < 1 \<or> new_height < 1
      then Inl (ValueError ''height and width must be > 0'')
      else (let paste_x = (thumbnail_size - new_width) div 2;
                paste_y = (thumbnail_size - new_height) div 2
            in if new_width > thumbnail_size \<or> new_height > thumbnail_size
               then (let left = (new_width - thumbnail_size) div 2;
                         top = (new_height - thumbnail_size) div 2
                     in Inr \<lparr>source = image_path, resized_to = (new_width, new_height),
                              cropped = True, offset = (left, top),
                              square = (thumbnail_size, thumbnail_size), fill = txt_color\<rparr>)
               else Inr \<lparr>source = image_path, resized_to = (new_width, new_height),
                         cropped = False, offset = (paste_x, paste_y),
                         square = (thumbnail_size, thumbnail_size), fill = txt_color\<rparr>))"

text \<open>Lines 152 to 172, for an image of the given size.\<close>

definition make_thumbnail :: "path \<Rightarrow> nat \<times> nat \<Rightarrow> rgb \<Rightarrow> py_exception + thumbnail" where
  "make_thumbnail image_path img_size txt_color =
     (let (img_width, img_height) = img_size
      in if img_width > img_height
         then resize_onto_square image_path thumbnail_size (scaled img_height img_width) txt_color
         else if img_height = 0 then Inl ZeroDivisionError
         else resize_onto_square image_path (scaled img_width img_height) thumbnail_size txt_color)"

section \<open>Paths and time\<close>

text \<open>
  \<open>os.path.basename\<close> and the first component of \<open>os.path.splitext\<close> on a POSIX
  system: the extension starts at the last full stop of the base name, unless only full
  stops precede it there. \<open>strftime("Created on %Y-%m-%d %H:%M:%S")\<close> pads with zeros.
\<close>

definition basename :: "path \<Rightarrow> string" where
  "basename p = rev (takeWhile (\<lambda>c. c \<noteq> CHR ''/'') (rev p))"

definition splitext_root :: "path \<Rightarrow> string" where
  "splitext_root p =
     (let name = basename p;
          ext = rev (takeWhile (\<lambda>c. c \<noteq> CHR ''.'') (rev name));
          stem = take (length name - length ext - 1) name
      in if CHR ''.'' \<in> set name \<and> list_ex (\<lambda>c. c \<noteq> CHR ''.'') stem
         then take (length p - length ext - 1) p
         else p)"

record datetime =
  year :: nat
  month :: nat
  day :: nat
  hour :: nat
  minute :: nat
  second :: nat

definition zero_pad :: "nat \<Rightarrow> nat \<Rightarrow> string" where
  "zero_pad w n = replicate (w - length (py_str n)) (CHR ''0'') @ py_str n"

definition strftime :: "datetime \<Rightarrow> string" where
  "strftime t =
     ''Created on '' @ zero_pad 4 (year t) @ ''-'' @ zero_pad 2 (month t) @ ''-'' @
     zero_pad 2 (day t) @ '' '' @ zero_pad 2 (hour t) @ '':'' @ zero_pad 2 (minute t) @
     '':'' @ zero_pad 2 (second t)"

section \<open>The canvas\<close>

text \<open>
  What the node reads from outside: the file system, the path of its font file, the font
  loader (\<open>Inl\<close> is the text of the exception it raises), the decoder (the size of the
  image at a path after \<open>Image.open(...).convert("RGB")\<close>, or \<open>None\<close> when that raises),
  \<open>os.path.relpath\<close>, and the clock.
\<close>

record env =
  env_fs :: filesystem
  env_font_path :: path
  env_truetype :: "path \<Rightarrow> nat \<Rightarrow> string + font"
  env_image_open :: "path \<Rightarrow> (nat \<times> nat) option"
  env_relpath :: "path \<Rightarrow> path \<Rightarrow> path"
  env_now :: datetime

text \<open>
  The canvas is its size, its background and the drawing calls made on it, in order:
  \<open>draw.text\<close> with position, text, fill and font size, \<open>draw.rectangle\<close> with its two
  corners and fill, \<open>output_image.paste\<close> with a thumbnail and its position.
\<close>

datatype draw_op =
    DrawText "int \<times> int" string rgb nat
  | DrawRectangle "int \<times> int" "int \<times> int" rgb
  | Paste thumbnail "int \<times> int"

record canvas =
  canvas_size :: "int \<times> int"
  canvas_color :: rgb
  drawn :: "draw_op list"

definition quote :: string where
  "quote = [CHR 0x27]"

text \<open>Lines 184 to 189.\<close>

definition display_name_of :: "env \<Rightarrow> path \<Rightarrow> bool \<Rightarrow> image_item \<Rightarrow> string" where
  "display_name_of env folder_path include_subfolders item =
     (case item of (root_dir, image_file) \<Rightarrow>
        if include_subfolders
        then (let rel_path = (if root_dir \<noteq> folder_path then env_relpath env root_dir folder_path else []);
                  filename = splitext_root image_file
              in if rel_path \<noteq> [] then os_path_join rel_path filename else filename)
        else splitext_root image_file)"

text \<open>
  Lines 174 to 178: the grid position for the running index \<open>image_idx\<close> in a subfolder
  list of \<open>n\<close> images, with the top of the rows at \<open>current_y\<close>.
\<close>

definition grid_position :: "nat \<Rightarrow> nat \<Rightarrow> nat \<Rightarrow> int \<Rightarrow> int \<times> int" where
  "grid_position image_idx n images_per_row current_y =
     (let row = (int image_idx mod int n) div int images_per_row;
          col = (int image_idx mod int n) mod int images_per_row;
          x = grid_spacing + col * (thumbnail_size + grid_spacing);
          y = current_y + row * (thumbnail_size + text_height + grid_spacing)
      in (x, y))"

text \<open>
  Lines 145 to 205: the body of the loop over one subfolder list, on the state
  \<open>(image_idx, ops)\<close>. Whatever is raised between lines 148 and 201 is caught at line
  203: the image is skipped and the state is as before it. (\<open>images_per_row\<close> is not 0
  here: line 80 or 88 has divided by it.)
\<close>

fun process_image ::
  "env \<Rightarrow> path \<Rightarrow> nat \<Rightarrow> bool \<Rightarrow> rgb \<Rightarrow> font \<Rightarrow> int \<Rightarrow> nat \<Rightarrow>
   nat \<times> draw_op list \<Rightarrow> image_item \<Rightarrow> nat \<times> draw_op list" where
  "process_image env folder_path images_per_row include_subfolders txt_color font current_y n
     (image_idx, ops) (root_dir, image_file) =
     (let image_path = os_path_join root_dir image_file
      in case env_image_open env image_path of
           None \<Rightarrow> (image_idx, ops)
         | Some img_size \<Rightarrow>
             (case make_thumbnail image_path img_size txt_color of
                Inl e \<Rightarrow> (image_idx, ops)
              | Inr thumbnail \<Rightarrow>
                  (if images_per_row = 0 then (image_idx, ops)
                   else (let (x, y) = grid_position image_idx n images_per_row current_y;
                             display_name =
                               display_name_of env folder_path include_subfolders (root_dir, image_file);
                             max_width = thumbnail_size - 10;
                             text_y = y + thumbnail_size + 5;
                             wrapped_text = caption_lines display_name font max_width
                         in (image_idx + 1,
                             ops @ [Paste thumbnail (x, y)] @
                             map (\<lambda>(i, line). DrawText (x + 5, text_y + int i * 25) line txt_color 20)
                               (enumerate 0 wrapped_text))))))"

declare process_image.simps [simp del]

text \<open>Lines 137 to 143: the title of a subfolder list, drawn in grouped mode.\<close>

definition subfolder_title :: "env \<Rightarrow> path \<Rightarrow> image_item list \<Rightarrow> string" where
  "subfolder_title env folder_path subfolder_images =
     (let subfolder_path = fst (hd subfolder_images);
          subfolder_name = (if subfolder_path = folder_path then basename folder_path
                            else env_relpath env subfolder_path folder_path)
      in ''- '' @ subfolder_name @ '' ('' @ py_str (length subfolder_images) @ '' images)'')"

text \<open>Lines 136 to 209: the loop over the subfolder lists, on the state
  \<open>(current_y, image_idx, ops)\<close>.\<close>

fun process_subfolders ::
  "env \<Rightarrow> path \<Rightarrow> nat \<Rightarrow> bool \<Rightarrow> rgb \<Rightarrow> font \<Rightarrow> image_item list list \<Rightarrow>
   int \<times> nat \<times> draw_op list \<Rightarrow> int \<times> nat \<times> draw_op list" where
  "process_subfolders env folder_path images_per_row include_subfolders txt_color font [] st = st"
| "process_subfolders env folder_path images_per_row include_subfolders txt_color font
     (subfolder_images # rest) (current_y, image_idx, ops) =
     (let (current_y, ops) =
            (if include_subfolders \<and> subfolder_images \<noteq> []
             then (current_y + subfolder_title_height + grid_spacing,
                   ops @ [DrawText (grid_spacing, current_y)
                            (subfolder_title env folder_path subfolder_images) txt_color 24])
             else (current_y, ops));
          (image_idx, ops) =
            foldl (process_image env folder_path images_per_row include_subfolders txt_color font
                     current_y (length subfolder_images))
              (image_idx, ops) subfolder_images;
          current_y =
            (if include_subfolders
             then current_y + rows_for (length subfolder_images) images_per_row *
                    (thumbnail_size + text_height + grid_spacing)
             else current_y)
      in process_subfolders env folder_path images_per_row include_subfolders txt_color font rest
           (current_y, image_idx, ops))"

section \<open>The node\<close>

text \<open>Lines 100 to 104: both fonts are loaded inside one \<open>try\<close>; the body font measures
  the captions.\<close>

definition load_fonts :: "env \<Rightarrow> py_exception + font" where
  "load_fonts env =
     (case env_truetype env (env_font_path env) 20 of
        Inl e \<Rightarrow> Inl (ValueError (''Failed to load font '' @ quote @ env_font_path env @ quote @ '': '' @ e))
      | Inr font \<Rightarrow>
          (case env_truetype env (env_font_path env) 24 of
             Inl e \<Rightarrow> Inl (ValueError (''Failed to load font '' @ quote @ env_font_path env @ quote @ '': '' @ e))
           | Inr stats_font \<Rightarrow> Inr font))"

text \<open>
  Lines 95 to 222, once the checks have passed and the height is known: the drawing calls
  on the new canvas. The time is read once, at line 121.
\<close>

definition render ::
  "env \<Rightarrow> path \<Rightarrow> nat \<Rightarrow> bool \<Rightarrow> rgb \<Rightarrow> rgb \<Rightarrow> font \<Rightarrow> image_item list list \<Rightarrow> int \<Rightarrow> canvas" where
  "render env folder_path images_per_row include_subfolders bg_color txt_color font image_files height =
     (let total = total_images image_files;
          width = output_width images_per_row;
          line_y_top = grid_spacing + stats_height + grid_spacing;
          ops = [DrawText (grid_spacing, grid_spacing) (stats_text total) txt_color 24,
                 DrawRectangle (grid_spacing, line_y_top)
                   (width - grid_spacing, line_y_top + line_thickness) txt_color];
          current_time = strftime (env_now env);
          line_y_bottom = height - footer_height - grid_spacing - line_thickness - grid_spacing;
          footer = [DrawRectangle (grid_spacing, line_y_bottom)
                      (width - grid_spacing, line_y_bottom + line_thickness) txt_color,
                    DrawText (grid_spacing, line_y_bottom + line_thickness + grid_spacing)
                      current_time txt_color 24]
      in if total = 0
         then \<lparr>canvas_size = (width, height), canvas_color = bg_color,
               drawn = ops @ footer\<rparr>
         else (let current_y = line_y_top + line_thickness + grid_spacing;
                   (current_y, image_idx, ops) =
                     process_subfolders env folder_path images_per_row include_subfolders
                       txt_color font image_files (current_y, 0, ops)
               in \<lparr>canvas_size = (width, height), canvas_color = bg_color,
                     drawn = ops @ footer\<rparr>))"

text \<open>\<open>generate_preview\<close>, lines 26 to 222. The result stands for the tensor made of the
  finished canvas.\<close>

definition generate_preview ::
  "env \<Rightarrow> path \<Rightarrow> nat \<Rightarrow> bool \<Rightarrow> ustring \<Rightarrow> ustring \<Rightarrow> py_exception + canvas" where
  "generate_preview env folder_path images_per_row include_subfolders background_color text_color =
     (if \<not> isdir (env_fs env) folder_path
      then Inl (ValueError (''The folder path '' @ quote @ folder_path @ quote @
                            '' does not exist or is not a directory!''))
      else if \<not> pexists (env_fs env) (env_font_path env)
      then Inl (FileNotFoundError (''Font file '' @ quote @ env_font_path env @ quote @ '' not found!''))
      else case parse_colors background_color text_color of
             Inl e \<Rightarrow> Inl e
           | Inr (bg_color, txt_color) \<Rightarrow>
               (let image_files = get_image_files (env_fs env) folder_path include_subfolders
                in case output_height images_per_row include_subfolders image_files of
                     Inl e \<Rightarrow> Inl e
                   | Inr height \<Rightarrow>
                       (case load_fonts env of
                          Inl e \<Rightarrow> Inl e
                        | Inr font \<Rightarrow>
                            Inr (render env folder_path images_per_row include_subfolders
                                   bg_color txt_color font image_files height))))"

section \<open>One image\<close>

text \<open>
  Two parts of the loop body, named to state what it does: the thumbnail lines 148 to 172
  make of an item, if nothing is raised there, and the caption lines 190 to 199 draw for
  an item pasted at a position.
\<close>

definition thumbnail_of :: "env \<Rightarrow> rgb \<Rightarrow> image_item \<Rightarrow> thumbnail option" where
  "thumbnail_of env txt_color item =
     (let image_path = os_path_join (fst item) (snd item)
      in case env_image_open env image_path of
           None \<Rightarrow> None
         | Some img_size \<Rightarrow>
             (case make_thumbnail image_path img_size txt_color of
                Inl e \<Rightarrow> None
              | Inr thumbnail \<Rightarrow> Some thumbnail))"

definition caption_ops ::
  "env \<Rightarrow> path \<Rightarrow> bool \<Rightarrow> rgb \<Rightarrow> font \<Rightarrow> int \<times> int \<Rightarrow> image_item \<Rightarrow> draw_op list" where
  "caption_ops env folder_path include_subfolders txt_color font pos item =
     map (\<lambda>(i, line). DrawText (fst pos + 5, snd pos + thumbnail_size + 5 + int i * 25) line txt_color 20)
       (enumerate 0 (caption_lines (display_name_of env folder_path include_subfolders item)
                       font (thumbnail_size - 10)))"

definition decodes :: "env \<Rightarrow> rgb \<Rightarrow> image_item \<Rightarrow> bool" where
  "decodes env txt_color item = (thumbnail_of env txt_color item \<noteq> None)"

definition image_path_of :: "image_item \<Rightarrow> path" where
  "image_path_of item = os_path_join (fst item) (snd item)"

section \<open>Reading a result\<close>

text \<open>Whether a message mentions a string, and which image was pasted where.\<close>

fun contains :: "string \<Rightarrow> string \<Rightarrow> bool" where
  "contains [] sub = (sub = [])"
| "contains (c # s) sub = (take (length sub) (c # s) = sub \<or> contains s sub)"

fun pasted :: "draw_op list \<Rightarrow> (path \<times> (int \<times> int)) list" where
  "pasted [] = []"
| "pasted (Paste t pos # ops) = (source t, pos) # pasted ops"
| "pasted (DrawText pos s c f # ops) = pasted ops"
| "pasted (DrawRectangle p q c # ops) = pasted ops"

text \<open>A font for examples: every character is ten pixels wide.\<close>

definition ten_px :: font where
  "ten_px s = 10 * int (length s)"

text \<open>A tree for examples: a root with three entries, an empty sub-directory, and a
  sub-directory with one image under which lies another with two.\<close>

definition example_tree :: dir_tree where
  "example_tree =
     Dir ''/pics'' [''a.png'', ''notes.txt'', ''b.JPG'']
       [Dir ''/pics/empty'' [''readme.md''] [],
        Dir ''/pics/x'' [''c.gif'']
          [Dir ''/pics/x/y'' [''d.webp'', ''e.bmp''] []]]"

definition example_fs :: filesystem where
  "example_fs =
     \<lparr>isdir = (\<lambda>p. p \<in> set [''/pics'', ''/pics/empty'', ''/pics/x'', ''/pics/x/y'']),
      isfile = (\<lambda>p. p \<in> set [''/pics/a.png'', ''/pics/notes.txt'', ''/pics/b.JPG'']),
      pexists = (\<lambda>p. True),
      listdir = (\<lambda>p. if p = ''/pics'' then [''a.png'', ''empty'', ''notes.txt'', ''x'', ''b.JPG''] else []),
      walk_tree = (\<lambda>p. if p = ''/pics'' then example_tree else Dir p [] [])\<rparr>"

text \<open>
  An environment for examples around the example tree: every image decodes to 512 by 256,
  except \<open>/pics/a.png\<close>, which does not decode.
\<close>

definition example_env :: env where
  "example_env =
     \<lparr>env_fs = example_fs,
      env_font_path = ''/node/font/lanting.ttf'',
      env_truetype = (\<lambda>p sz. Inr ten_px),
      env_image_open = (\<lambda>p. if p = ''/pics/a.png'' then None else Some (512, 256)),
      env_relpath = (\<lambda>p start. drop (length start + 1) p),
      env_now = \<lparr>year = 2026, month = 11, day = 4, hour = 9, minute = 5, second = 0\<rparr>\<rparr>"

text \<open>The same environment with every image decoding to 512 by 256.\<close>

definition decoding_env :: env where
  "decoding_env = example_env\<lparr>env_image_open := (\<lambda>p. Some (512, 256))\<rparr>"

section \<open>Properties of the colour parser\<close>

lemma hexval_facts:
  "hexval c = Some v \<Longrightarrow> \<not> is_space c \<and> c \<noteq> CHR ''+'' \<and> c \<noteq> CHR ''-'' \<and> c \<noteq> CHR ''_'' \<and> c \<noteq> CHR ''x'' \<and> c \<noteq> CHR ''X'' \<and> v < 16"
  by (auto simp: hexval_def is_space_def Let_def split: if_splits)

lemma hexval_special [simp]:
  "hexval (CHR ''_'') = None" "hexval (CHR ''x'') = None" "hexval (CHR ''X'') = None"
  "hexval (CHR ''+'') = None" "hexval (CHR ''-'') = None" "hexval (CHR ''0'') = Some 0"
  by (simp_all add: hexval_def)

lemma is_space_special [simp]:
  "\<not> is_space (CHR ''_'')" "\<not> is_space (CHR ''x'')" "\<not> is_space (CHR ''X'')"
  "\<not> is_space (CHR ''+'')" "\<not> is_space (CHR ''-'')" "\<not> is_space (CHR ''0'')"
  by (simp_all add: is_space_def)

lemma is_space_hexval: "is_space c \<Longrightarrow> hexval c = None"
  by (auto simp: hexval_def is_space_def Let_def split: if_splits)

lemma parse_unsigned16_Nil: "parse_unsigned16 [] = None"
  by (simp add: parse_unsigned16_def strip_prefix16_def)

lemma parse_unsigned16_one: "parse_unsigned16 [c] = hexval c"
  by (cases "hexval c") (auto simp: parse_unsigned16_def strip_prefix16_def)

lemma strip_prefix16_two:
  "strip_prefix16 [a, b] = (if a = CHR ''0'' \<and> (b = CHR ''x'' \<or> b = CHR ''X'') then [] else [a, b])"
  by (simp add: strip_prefix16_def)

lemma parse_unsigned16_two:
  "parse_unsigned16 [a, b] =
     (case hexval a of None \<Rightarrow> None
      | Some x \<Rightarrow> (case hexval b of Some y \<Rightarrow> Some (16 * x + y)
                   | None \<Rightarrow> if is_space b then Some x else None))"
proof (cases "a = CHR ''0'' \<and> (b = CHR ''x'' \<or> b = CHR ''X'')")
  case True
  then show ?thesis by (auto simp: parse_unsigned16_def strip_prefix16_two)
next
  case False
  then have sp: "strip_prefix16 [a, b] = [a, b]" by (simp add: strip_prefix16_two)
  show ?thesis
  proof (cases "hexval a")
    case None
    then show ?thesis by (auto simp: parse_unsigned16_def sp)
  next
    case (Some x)
    then have "a \<noteq> CHR ''_''" by auto
    with Some show ?thesis
      by (cases "hexval b") (auto simp: parse_unsigned16_def sp)
  qed
qed

lemma py_int16_Nil: "py_int16 [] = None"
  by (simp add: py_int16_def strip_sign_def parse_unsigned16_Nil)

lemma py_int16_space: "is_space a \<Longrightarrow> py_int16 (a # s) = py_int16 s"
  by (simp add: py_int16_def)

lemma py_int16_one: "py_int16 [a] = map_option int (hexval a)"
proof (cases "is_space a")
  case True
  then show ?thesis by (simp add: py_int16_space py_int16_Nil is_space_hexval)
next
  case False
  then show ?thesis
    by (auto simp: py_int16_def strip_sign_def parse_unsigned16_Nil parse_unsigned16_one)
qed

lemma py_int16_two_hex:
  "hexval a = Some x \<Longrightarrow> hexval b = Some y \<Longrightarrow> py_int16 [a, b] = Some (int (16 * x + y))"
  using hexval_facts[of a x]
  by (auto simp: py_int16_def strip_sign_def parse_unsigned16_two)

lemma hex_to_rgb_None_iff:
  "hex_to_rgb color = None \<longleftrightarrow>
     int_base16 (slice2 (lstrip_hash color) 0) = None \<or>
     int_base16 (slice2 (lstrip_hash color) 2) = None \<or>
     int_base16 (slice2 (lstrip_hash color) 4) = None"
  by (auto simp: hex_to_rgb_def Let_def split: option.splits)

lemma hex_to_rgb_short: "length (lstrip_hash color) < 5 \<Longrightarrow> hex_to_rgb color = None"
  by (simp add: hex_to_rgb_None_iff slice2_def int_base16_def py_int16_Nil)

lemma hex_to_rgb_examples:
  "hex_to_rgb (codepoints ''#FFFFFF'') = Some (255, 255, 255)"
  "hex_to_rgb (codepoints ''#000000'') = Some (0, 0, 0)"
  "hex_to_rgb (codepoints ''GGGGGG'') = None"
  "hex_to_rgb (codepoints ''#12'') = None"
  by code_simp+

text \<open>
  Claim C2 asks a colour whose remainder is not exactly six hexadecimal digits to be
  rejected, as the message of line 44 does (\<open>must be a valid HEX value, e.g., #FFFFFF\<close>).
  The colour \<open>#FFFFF\<close> has five: lines 41 and 42 take the slices \<open>FF\<close>, \<open>FF\<close> and
  \<open>F\<close>, and return (255, 255, 15). The three examples of the claim are as it says
  (\<open>hex_to_rgb_examples\<close>).
\<close>

theorem hex_to_rgb_five_digits_accepted:
  "\<not> six_hex (lstrip_hash (codepoints ''#FFFFF'')) \<and>
   hex_to_rgb (codepoints ''#FFFFF'') = Some (255, 255, 15)"
  by code_simp

section \<open>Properties of the statistics text\<close>

lemma py_str_digits: "list_all is_digit (py_str n)"
proof (induction n rule: py_str.induct)
  case (1 n)
  show ?case
  proof (cases "n < 10")
    case True
    then show ?thesis by (subst py_str.simps) (simp add: is_digit_def digit_char_def)
  next
    case False
    have "n mod 10 < 10" by simp
    then have "is_digit (digit_char (n mod 10))" 
      unfolding is_digit_def digit_char_def by auto
    with False 1 show ?thesis by (subst py_str.simps) simp
  qed
qed

lemma decimal_value_snoc: "decimal_value (s @ [c]) = 10 * decimal_value s + (of_char c - 48)"
  by (simp add: decimal_value_def)

lemma of_char_digit: "d < 10 \<Longrightarrow> (of_char (digit_char d) :: nat) = 48 + d"
  by (simp add: digit_char_def)

lemma decimal_value_py_str: "decimal_value (py_str n) = n"
proof (induction n rule: py_str.induct)
  case (1 n)
  show ?case
  proof (cases "n < 10")
    case True
    then show ?thesis by (subst py_str.simps) (simp add: decimal_value_def of_char_digit)
  next
    case False
    with 1 have "decimal_value (py_str (n div 10)) = n div 10" by simp
    with False show ?thesis
      by (subst py_str.simps) (simp add: decimal_value_snoc of_char_digit)
  qed
qed

lemma py_str_nonempty: "py_str n \<noteq> []"
  by (subst py_str.simps) simp

lemma py_str_no_leading_zero: "0 < n \<Longrightarrow> hd (py_str n) \<noteq> CHR ''0''"
proof (induction n rule: py_str.induct)
  case (1 n)
  show ?case
  proof (cases "n < 10")
    case True
    with 1(2) have "(of_char (digit_char n) :: nat) \<noteq> 48" by (simp add: of_char_digit)
    then have "digit_char n \<noteq> CHR ''0''" by auto
    with True show ?thesis by (subst py_str.simps) simp
  next
    case False
    then have "0 < n div 10" by simp
    with 1(1) False have "hd (py_str (n div 10)) \<noteq> CHR ''0''" by simp
    with False show ?thesis by (subst py_str.simps) (simp add: py_str_nonempty)
  qed
qed

text \<open>
  Claim C6. With one discovered image the statistics text is \<open>Found 1 image\<close>; with
  \<open>n\<close> of them, \<open>n\<close> at least two, it is \<open>Found\<close>, the decimal digits of \<open>n\<close> with
  no leading zero, and \<open>images\<close>.
\<close>

theorem stats_text_counts:
  "stats_text 1 = ''Found 1 image'' \<and>
   (2 \<le> n \<longrightarrow>
      stats_text n = ''Found '' @ py_str n @ '' images'' \<and>
      list_all is_digit (py_str n) \<and> decimal_value (py_str n) = n \<and>
      hd (py_str n) \<noteq> CHR ''0'')"
  by (simp add: stats_text_def py_str_digits decimal_value_py_str py_str_no_leading_zero)

text \<open>Claim C6 at twelve images.\<close>

theorem stats_text_counts_witness:
  "stats_text 1 = ''Found 1 image'' \<and> stats_text 12 = ''Found 12 images'' \<and>
   decimal_value ''12'' = 12"
proof -
  have p: "py_str 12 = ''12''" by code_simp
  from stats_text_counts[of 12] p show ?thesis by simp
qed

section \<open>Properties of text wrapping\<close>

lemma wrap_loop_fits:
  "(\<And>k. 1 \<le> k \<Longrightarrow> k \<le> length t \<Longrightarrow> font (cur @ take k t) \<le> max_width) \<Longrightarrow>
   wrap_loop font max_width t lines cur =
     (if cur @ t \<noteq> [] then lines @ [cur @ t] else lines)"
proof (induction t arbitrary: cur)
  case Nil
  then show ?case by simp
next
  case (Cons c t)
  have first: "font (cur @ [c]) \<le> max_width"
    using Cons.prems[of 1] by simp
  have rest: "font ((cur @ [c]) @ take k t) \<le> max_width"
    if "1 \<le> k" "k \<le> length t" for k
    using Cons.prems[of "Suc k"] that by simp
  from Cons.IH[of "cur @ [c]", OF rest] first show ?case by simp
qed

lemma wrap_text_fits:
  assumes "t \<noteq> []"
    and "\<forall>k \<in> {1..length t}. font (take k t) \<le> max_width"
  shows "wrap_text t font max_width = [t]"
proof -
  have "font ([] @ take k t) \<le> max_width" if "1 \<le> k" "k \<le> length t" for k
    using assms(2) that by simp
  from wrap_loop_fits[of t font "[]" max_width "[]", OF this] assms(1)
  show ?thesis by (simp add: wrap_text_def)
qed

lemma wrap_text_empty: "wrap_text [] font max_width = []"
  by (simp add: wrap_text_def)

lemma caption_lines_short:
  "length (wrap_text t font max_width) \<le> 2 \<Longrightarrow>
   caption_lines t font max_width = wrap_text t font max_width"
  by (simp add: caption_lines_def Let_def)

lemma caption_lines_long:
  assumes "2 < length (wrap_text t font max_width)"
  shows "caption_lines t font max_width =
           [wrap_text t font max_width ! 0,
            rstrip_dots (wrap_text t font max_width ! 1) @ ''...'']"
proof -
  let ?w = "wrap_text t font max_width"
  from assms obtain a b rest where w: "?w = a # b # rest"
    by (cases ?w; cases "tl ?w") auto
  have "take 2 ?w = [a, b]" unfolding w by (simp add: numeral_2_eq_2)
  with assms show ?thesis
    unfolding caption_lines_def Let_def w by simp
qed

text \<open>
  Claim C4. A display text, which is a file stem and so not empty, all of whose prefixes
  measure at most the maximum width, wraps to the single line that is the text itself,
  and that is the caption. When wrapping gives more than two lines, the caption is
  exactly two lines: the first line, and the second line with its trailing full stops
  removed and \<open>...\<close> appended.
\<close>

theorem wrap_text_one_line_and_truncation:
  "(t \<noteq> [] \<and> (\<forall>k \<in> {1..length t}. font (take k t) \<le> max_width) \<longrightarrow>
      wrap_text t font max_width = [t] \<and>
      caption_lines t font max_width = [t]) \<and>
   (2 < length (wrap_text t font max_width) \<longrightarrow>
      length (caption_lines t font max_width) = 2 \<and>
      caption_lines t font max_width =
        [wrap_text t font max_width ! 0,
         rstrip_dots (wrap_text t font max_width ! 1) @ ''...''])"
proof -
  have a: "wrap_text t font max_width = [t] \<and> caption_lines t font max_width = [t]"
    if "t \<noteq> []" "\<forall>k \<in> {1..length t}. font (take k t) \<le> max_width"
  proof -
    from wrap_text_fits[OF that] have w: "wrap_text t font max_width = [t]" .
    then show ?thesis using caption_lines_short[of t font max_width] by simp
  qed
  have b: "length (caption_lines t font max_width) = 2 \<and>
      caption_lines t font max_width =
        [wrap_text t font max_width ! 0,
         rstrip_dots (wrap_text t font max_width ! 1) @ ''...'']"
    if "2 < length (wrap_text t font max_width)"
    using caption_lines_long[OF that] by simp
  from a b show ?thesis by blast
qed

lemma wrap_abc: "wrap_text ''abcde...ij'' ten_px 30 = [''abc'', ''de.'', ''..i'', ''j'']"
  by (simp add: wrap_text_def ten_px_def)

text \<open>Claim C4 with a font of ten pixels a character and a maximum width of thirty.\<close>

theorem wrap_text_one_line_and_truncation_witness:
  "wrap_text ''cat'' ten_px 30 = [''cat''] \<and>
   caption_lines ''cat'' ten_px 30 = [''cat''] \<and>
   caption_lines ''abcde...ij'' ten_px 30 = [''abc'', ''de...'']"
proof -
  have h1: "\<forall>k \<in> {1..length ''cat''}. ten_px (take k ''cat'') \<le> 30"
    by (simp add: ten_px_def)
  have h2: "2 < length (wrap_text ''abcde...ij'' ten_px 30)"
    by (simp add: wrap_abc)
  from wrap_text_one_line_and_truncation[of "''cat''" ten_px 30] h1
  have t1: "wrap_text ''cat'' ten_px 30 = [''cat''] \<and> caption_lines ''cat'' ten_px 30 = [''cat'']"
    by simp
  from wrap_text_one_line_and_truncation[of "''abcde...ij''" ten_px 30] h2
  have "caption_lines ''abcde...ij'' ten_px 30 =
        [wrap_text ''abcde...ij'' ten_px 30 ! 0,
         rstrip_dots (wrap_text ''abcde...ij'' ten_px 30 ! 1) @ ''...'']"
    by blast
  then have t2: "caption_lines ''abcde...ij'' ten_px 30 = [''abc'', ''de...'']"
    by (simp add: wrap_abc rstrip_dots_def)
  from t1 t2 show ?thesis by simp
qed

section \<open>Properties of image discovery\<close>

lemma walk_loop_filter:
  "walk_loop ds acc = acc @ filter (\<lambda>s. s \<noteq> []) (map section_of ds)"
  by (induction ds arbitrary: acc) (auto simp: section_of_def Let_def)

lemma section_of_nonempty: "section_of d \<noteq> [] \<longleftrightarrow> has_eligible d"
  by (auto simp: section_of_def has_eligible_def list_ex_iff filter_empty_conv)

lemma sections_of_eligible:
  "filter (\<lambda>s. s \<noteq> []) (map section_of ds) = map section_of (filter has_eligible ds)"
  by (induction ds) (auto simp: section_of_nonempty)

lemma total_sections:
  "sum_list (map length (map section_of (filter has_eligible ds))) =
   length (filter is_supported (concat (map snd ds)))"
proof (induction ds)
  case Nil
  then show ?case by simp
next
  case (Cons d ds)
  have "\<not> has_eligible d \<Longrightarrow> filter is_supported (snd d) = []"
    by (auto simp: has_eligible_def list_ex_iff filter_empty_conv)
  with Cons show ?case by (auto simp: section_of_def)
qed

text \<open>
  Claim C7. In recursive mode the sections are those of the visited directories that hold
  an eligible file, in the order \<open>os.walk\<close> visits them, which is root first and a
  subtree before the next sibling; no section is empty; and the total is the sum of the
  section sizes, which is the number of eligible files in the directories visited.
\<close>

theorem recursive_discovery_sections:
  "get_image_files fs folder_path True =
     map section_of (filter has_eligible (os_walk (walk_tree fs folder_path))) \<and>
   (\<forall>s \<in> set (get_image_files fs folder_path True). s \<noteq> []) \<and>
   total_images (get_image_files fs folder_path True) =
     sum_list (map length (get_image_files fs folder_path True)) \<and>
   total_images (get_image_files fs folder_path True) =
     length (filter is_supported (concat (map snd (os_walk (walk_tree fs folder_path))))) \<and>
   (walk_tree fs folder_path = Dir root_dir files subdirs \<longrightarrow>
      os_walk (walk_tree fs folder_path) = (root_dir, files) # concat (map os_walk subdirs))"
proof -
  let ?ds = "os_walk (walk_tree fs folder_path)"
  have eq: "get_image_files fs folder_path True = map section_of (filter has_eligible ?ds)"
    by (simp add: get_image_files_def walk_loop_filter sections_of_eligible)
  have ne: "\<forall>s \<in> set (get_image_files fs folder_path True). s \<noteq> []"
    unfolding eq by (auto simp: section_of_nonempty)
  have tot: "total_images (get_image_files fs folder_path True) =
     length (filter is_supported (concat (map snd ?ds)))"
    unfolding eq total_images_def by (rule total_sections)
  from eq ne tot show ?thesis by (simp add: total_images_def)
qed


lemma example_sections:
  "map section_of (filter has_eligible (os_walk example_tree)) =
     [[(''/pics'', ''a.png''), (''/pics'', ''b.JPG'')],
      [(''/pics/x'', ''c.gif'')],
      [(''/pics/x/y'', ''d.webp''), (''/pics/x/y'', ''e.bmp'')]]"
  by code_simp

text \<open>Claim C7 on the example tree: the empty directory gives no section.\<close>

theorem recursive_discovery_sections_witness:
  "get_image_files example_fs ''/pics'' True =
     [[(''/pics'', ''a.png''), (''/pics'', ''b.JPG'')],
      [(''/pics/x'', ''c.gif'')],
      [(''/pics/x/y'', ''d.webp''), (''/pics/x/y'', ''e.bmp'')]] \<and>
   total_images (get_image_files example_fs ''/pics'' True) = 5"
proof -
  have w: "walk_tree example_fs ''/pics'' = example_tree"
    by (simp add: example_fs_def)
  from recursive_discovery_sections[of example_fs "''/pics''"]
  have eq: "get_image_files example_fs ''/pics'' True =
      map section_of (filter has_eligible (os_walk example_tree))"
    and tot: "total_images (get_image_files example_fs ''/pics'' True) =
      sum_list (map length (get_image_files example_fs ''/pics'' True))"
    unfolding w by blast+
  from eq tot show ?thesis by (simp add: example_sections)
qed

section \<open>Properties of the thumbnail\<close>

lemma bit_length_values:
  "bit_length (Suc 0) = 1" "bit_length 3 = 2" "bit_length 64 = 7" "bit_length 100 = 7"
  "bit_length 128 = 8" "bit_length 256 = 9"
  by code_simp+

lemma fl_ints: "fl 1 = 1" "fl 100 = 100" "fl 256 = 256"
  by (simp_all add: fl_def ilog2_def bit_length_values pow2_def Let_def round_half_even_def)

lemma fl_quotients:
  "fl (32 / 125) = 1152921504606847 / 4503599627370496"
  "fl (1 / 2) = 1 / 2"
  "fl (16 / 25) = 5764607523034235 / 9007199254740992"
  by (simp_all add: fl_def ilog2_def bit_length_values pow2_def Let_def round_half_even_def)


lemma fl_products:
  "fl (1152921504606847 / 4503599627370496) = 1152921504606847 / 4503599627370496"
  "fl (128) = 128"
  "fl (144115188075855875 / 2251799813685248) = 64"
  by (simp_all add: fl_def ilog2_def bit_length_values pow2_def Let_def round_half_even_def)

lemma scaled_examples:
  "scaled 1 1000 = 0" "scaled 256 512 = 128" "scaled 100 400 = 64" "scaled 256 256 = 256"
  by (simp_all add: scaled_def fl_ints fl_quotients fl_products)

lemma make_thumbnail_examples:
  "make_thumbnail p (512, 256) c =
     Inr \<lparr>source = p, resized_to = (256, 128), cropped = False, offset = (0, 64),
          square = (256, 256), fill = c\<rparr>"
  "make_thumbnail p (100, 400) c =
     Inr \<lparr>source = p, resized_to = (64, 256), cropped = False, offset = (96, 0),
          square = (256, 256), fill = c\<rparr>"
  "make_thumbnail p (256, 256) c =
     Inr \<lparr>source = p, resized_to = (256, 256), cropped = False, offset = (0, 0),
          square = (256, 256), fill = c\<rparr>"
  by (simp_all add: make_thumbnail_def resize_onto_square_def scaled_examples)

text \<open>
  Claim C3 asks a 256 by 256 thumbnail of every decodable image. For an image 1000 wide
  and 1 high, line 155 computes the new height \<open>int(1 * (256 / 1000))\<close>, which is 0, and
  \<open>Image.resize\<close> raises: no thumbnail is made, and the handler of line 203 skips the
  image. The three examples of the claim are as it says (\<open>make_thumbnail_examples\<close>).
\<close>

theorem make_thumbnail_thin_image_raises:
  "make_thumbnail p (1000, 1) c = Inl (ValueError ''height and width must be > 0'')"
  using scaled_examples(1) by (simp add: make_thumbnail_def resize_onto_square_def)

section \<open>Properties of the node\<close>

text \<open>
  Claim C5. When the folder exists, the checks pass and no image is discovered, the canvas
  is as high as the statistics line, two dividers and the footer with one grid spacing
  before, between and after them, which is 324; the statistics text is
  \<open>Not found any image\<close>, and nothing is drawn but it, the two dividers and the footer.
\<close>

theorem zero_images_canvas:
  assumes "isdir (env_fs env) folder_path"
    and "pexists (env_fs env) (env_font_path env)"
    and "parse_colors background_color text_color = Inr (bg_color, txt_color)"
    and "load_fonts env = Inr font"
    and "total_images (get_image_files (env_fs env) folder_path include_subfolders) = 0"
  shows "generate_preview env folder_path images_per_row include_subfolders background_color text_color =
     Inr \<lparr>canvas_size = (output_width images_per_row,
                grid_spacing + stats_height + grid_spacing + line_thickness + grid_spacing +
                line_thickness + grid_spacing + footer_height + grid_spacing),
            canvas_color = bg_color,
            drawn = [DrawText (48, 48) ''Not found any image'' txt_color 24,
                     DrawRectangle (48, 136) (output_width images_per_row - 48, 138) txt_color,
                     DrawRectangle (48, 186) (output_width images_per_row - 48, 188) txt_color,
                     DrawText (48, 236) (strftime (env_now env)) txt_color 24]\<rparr>"
  using assms
  by (simp add: generate_preview_def output_height_def render_def stats_text_def Let_def)

lemma example_env_simps:
  "env_fs example_env = example_fs"
  "env_font_path example_env = ''/node/font/lanting.ttf''"
  "env_truetype example_env = (\<lambda>p sz. Inr ten_px)"
  "env_now example_env = \<lparr>year = 2026, month = 11, day = 4, hour = 9, minute = 5, second = 0\<rparr>"
  by (simp_all add: example_env_def)

lemma example_colors:
  "parse_colors (codepoints ''#FFFFFF'') (codepoints ''#000000'') = Inr ((255, 255, 255), (0, 0, 0))"
  by (simp add: parse_colors_def hex_to_rgb_examples)

lemma example_fonts: "load_fonts example_env = Inr ten_px"
  by (simp add: load_fonts_def example_env_simps)

lemma example_time: "strftime (env_now example_env) = ''Created on 2026-11-04 09:05:00''"
  unfolding example_env_simps by code_simp

text \<open>Claim C5 on the empty directory of the example tree.\<close>

theorem zero_images_canvas_witness:
  "generate_preview example_env ''/pics/empty'' 5 False (codepoints ''#FFFFFF'') (codepoints ''#000000'') =
     Inr \<lparr>canvas_size = (1568, 324), canvas_color = (255, 255, 255),
            drawn = [DrawText (48, 48) ''Not found any image'' (0, 0, 0) 24,
                     DrawRectangle (48, 136) (1520, 138) (0, 0, 0),
                     DrawRectangle (48, 186) (1520, 188) (0, 0, 0),
                     DrawText (48, 236) ''Created on 2026-11-04 09:05:00'' (0, 0, 0) 24]\<rparr>"
proof -
  have a: "isdir (env_fs example_env) ''/pics/empty''"
    by (simp add: example_env_simps example_fs_def)
  have b: "pexists (env_fs example_env) (env_font_path example_env)"
    by (simp add: example_env_simps example_fs_def)
  have c: "total_images (get_image_files (env_fs example_env) ''/pics/empty'' False) = 0"
    by (simp add: example_env_simps example_fs_def get_image_files_def total_images_def)
  from zero_images_canvas[OF a b example_colors example_fonts c, of 5] show ?thesis
    by (simp add: output_width_def example_time)
qed

lemma contains_prefix: "contains (s @ b) s"
proof (cases "s @ b")
  case Nil
  then show ?thesis by simp
next
  case (Cons c r)
  have "take (length s) (s @ b) = s" by simp
  then show ?thesis unfolding Cons by simp
qed

lemma contains_append_left: "contains t s \<Longrightarrow> contains (a @ t) s"
  by (induction a) auto

lemma contains_middle: "contains (a @ s @ b) s"
  by (rule contains_append_left) (rule contains_prefix)

text \<open>
  Claim C8, as the code has it. When the folder path is not a directory the node raises
  the \<open>ValueError\<close> of line 32, whose message holds the path. When the folder is a
  directory, the font file exists and a colour is rejected by the parser, it raises the
  \<open>ValueError\<close> of line 44, whose message is fixed. In both cases the result is the
  exception alone: no canvas exists yet.
\<close>

theorem fatal_errors_abort:
  "(\<not> isdir (env_fs env) folder_path \<longrightarrow>
      generate_preview env folder_path images_per_row include_subfolders background_color text_color =
        Inl (ValueError (''The folder path '' @ quote @ folder_path @ quote @
                         '' does not exist or is not a directory!'')) \<and>
      contains (''The folder path '' @ quote @ folder_path @ quote @
                '' does not exist or is not a directory!'') folder_path) \<and>
   (isdir (env_fs env) folder_path \<and> pexists (env_fs env) (env_font_path env) \<and>
    (hex_to_rgb background_color = None \<or> hex_to_rgb text_color = None) \<longrightarrow>
      generate_preview env folder_path images_per_row include_subfolders background_color text_color =
        Inl (ValueError invalid_color_msg))"
proof -
  have c: "contains (''The folder path '' @ quote @ folder_path @ quote @
                '' does not exist or is not a directory!'') folder_path"
    using contains_middle[of "''The folder path '' @ quote" folder_path
        "quote @ '' does not exist or is not a directory!''"]
    by simp
  have pc: "parse_colors background_color text_color = Inl (ValueError invalid_color_msg)"
    if "hex_to_rgb background_color = None \<or> hex_to_rgb text_color = None"
    using that by (auto simp: parse_colors_def split: option.splits)
  show ?thesis using c pc by (simp add: generate_preview_def)
qed

lemma invalid_color_msg_silent: "\<not> contains invalid_color_msg ''GGGGGG''"
  unfolding invalid_color_msg_def by code_simp

text \<open>
  Claim C8 as stated asks the message of a colour failure to include the offending value.
  For the text colour \<open>GGGGGG\<close> the message is the fixed one, which holds neither the
  colour nor the path.
\<close>

theorem color_message_omits_value:
  "generate_preview example_env ''/pics'' 5 False (codepoints ''#FFFFFF'') (codepoints ''GGGGGG'') =
     Inl (ValueError invalid_color_msg) \<and>
   \<not> contains invalid_color_msg ''GGGGGG'' \<and> \<not> contains invalid_color_msg ''/pics''"
proof -
  have a: "hex_to_rgb (codepoints ''GGGGGG'') = None" by (rule hex_to_rgb_examples)
  have b: "hex_to_rgb (codepoints ''#FFFFFF'') = Some (255, 255, 255)" by (rule hex_to_rgb_examples)
  have c: "\<not> contains invalid_color_msg ''/pics''"
    unfolding invalid_color_msg_def by code_simp
  have "generate_preview example_env ''/pics'' 5 False (codepoints ''#FFFFFF'') (codepoints ''GGGGGG'') =
     Inl (ValueError invalid_color_msg)"
    by (simp add: generate_preview_def example_env_simps example_fs_def parse_colors_def a b)
  with invalid_color_msg_silent c show ?thesis by simp
qed

text \<open>Claim C8 at a missing folder and at a colour of two digits.\<close>

theorem fatal_errors_abort_witness:
  "generate_preview example_env ''/nowhere'' 5 False (codepoints ''#FFFFFF'') (codepoints ''#000000'') =
     Inl (ValueError (''The folder path '' @ quote @ ''/nowhere'' @ quote @
                      '' does not exist or is not a directory!'')) \<and>
   generate_preview example_env ''/pics'' 5 False (codepoints ''#12'') (codepoints ''#000000'') =
     Inl (ValueError invalid_color_msg)"
proof -
  have a: "\<not> isdir (env_fs example_env) ''/nowhere''"
    by (simp add: example_env_simps example_fs_def)
  have b: "isdir (env_fs example_env) ''/pics'' \<and>
           pexists (env_fs example_env) (env_font_path example_env)"
    by (simp add: example_env_simps example_fs_def)
  have c: "hex_to_rgb (codepoints ''#12'') = None" by (rule hex_to_rgb_examples)
  from fatal_errors_abort[of example_env "''/nowhere''" 5 False "codepoints ''#FFFFFF''" "codepoints ''#000000''"] a
  have 1: "generate_preview example_env ''/nowhere'' 5 False (codepoints ''#FFFFFF'') (codepoints ''#000000'') =
     Inl (ValueError (''The folder path '' @ quote @ ''/nowhere'' @ quote @
                      '' does not exist or is not a directory!''))"
    by blast
  from fatal_errors_abort[of example_env "''/pics''" 5 False "codepoints ''#12''" "codepoints ''#000000''"] b c
  have 2: "generate_preview example_env ''/pics'' 5 False (codepoints ''#12'') (codepoints ''#000000'') =
     Inl (ValueError invalid_color_msg)"
    by blast
  from 1 2 show ?thesis by simp
qed

lemma display_name_of_clock:
  "display_name_of (env\<lparr>env_now := t\<rparr>) fp sub item = display_name_of env fp sub item"
  by (cases item) (simp add: display_name_of_def)

lemma process_image_clock:
  "process_image (env\<lparr>env_now := t\<rparr>) fp ipr sub txt font y n st item =
   process_image env fp ipr sub txt font y n st item"
  by (cases st; cases item)
     (simp add: process_image.simps display_name_of_clock Let_def
        split: option.splits sum.splits)

lemma subfolder_title_clock:
  "subfolder_title (env\<lparr>env_now := t\<rparr>) fp imgs = subfolder_title env fp imgs"
  by (simp add: subfolder_title_def Let_def cong: if_cong)

lemma process_subfolders_clock:
  "process_subfolders (env\<lparr>env_now := t\<rparr>) fp ipr sub txt font secs st =
   process_subfolders env fp ipr sub txt font secs st"
proof (induction secs arbitrary: st)
  case Nil
  then show ?case by simp
next
  case (Cons s secs)
  obtain y i ops where st: "st = (y, i, ops)" by (cases st) auto
  have f: "process_image (env\<lparr>env_now := t\<rparr>) fp ipr sub txt font y' n =
           process_image env fp ipr sub txt font y' n" for y' n
    by (intro ext) (rule process_image_clock)
  show ?case
    unfolding st by (simp add: f subfolder_title_clock Cons.IH split: prod.splits)
qed

lemma load_fonts_clock: "load_fonts (env\<lparr>env_now := t\<rparr>) = load_fonts env"
  by (simp add: load_fonts_def split: sum.splits)

lemma render_shape:
  "\<exists>body pos. \<forall>t.
     render (env\<lparr>env_now := t\<rparr>) fp ipr sub bg txt font secs h =
       \<lparr>canvas_size = (output_width ipr, h), canvas_color = bg,
        drawn = body @ [DrawText pos (strftime t) txt 24]\<rparr>"
proof (cases "total_images secs = 0")
  case True
  then show ?thesis
    by (intro exI[of _ "[DrawText (48, 48) (stats_text 0) txt 24,
          DrawRectangle (48, 136) (output_width ipr - 48, 138) txt,
          DrawRectangle (48, h - 138) (output_width ipr - 48, h - 136) txt]"]
        exI[of _ "(48, h - 88)"])
       (simp add: render_def Let_def)
next
  case False
  obtain y i ops where r: "process_subfolders env fp ipr sub txt font secs
      (186, 0, [DrawText (48, 48) (stats_text (total_images secs)) txt 24,
                DrawRectangle (48, 136) (output_width ipr - 48, 138) txt]) = (y, i, ops)"
    by (metis prod_cases3)
  from False r show ?thesis
    by (intro exI[of _ "ops @ [DrawRectangle (48, h - 138) (output_width ipr - 48, h - 136) txt]"]
        exI[of _ "(48, h - 88)"])
       (simp add: render_def Let_def process_subfolders_clock)
qed

text \<open>
  Claim C9. Two runs on the same inputs, file system, fonts and decoded images, at times
  \<open>t1\<close> and \<open>t2\<close>, either raise the same exception, or give canvases of the same size
  and background whose drawing calls are the same but for the last, the footer text,
  which is the time of the run; the time is read once.
\<close>

theorem render_same_up_to_timestamp:
  "(\<exists>e. generate_preview (env\<lparr>env_now := t1\<rparr>) folder_path images_per_row include_subfolders
            background_color text_color = Inl e \<and>
        generate_preview (env\<lparr>env_now := t2\<rparr>) folder_path images_per_row include_subfolders
            background_color text_color = Inl e) \<or>
   (\<exists>sz col body pos c.
        generate_preview (env\<lparr>env_now := t1\<rparr>) folder_path images_per_row include_subfolders
            background_color text_color =
          Inr \<lparr>canvas_size = sz, canvas_color = col,
                 drawn = body @ [DrawText pos (strftime t1) c 24]\<rparr> \<and>
        generate_preview (env\<lparr>env_now := t2\<rparr>) folder_path images_per_row include_subfolders
            background_color text_color =
          Inr \<lparr>canvas_size = sz, canvas_color = col,
                 drawn = body @ [DrawText pos (strftime t2) c 24]\<rparr>)"
proof -
  let ?gp = "\<lambda>t. generate_preview (env\<lparr>env_now := t\<rparr>) folder_path images_per_row
      include_subfolders background_color text_color"
  let ?secs = "get_image_files (env_fs env) folder_path include_subfolders"
  have gp: "?gp t =
      (if \<not> isdir (env_fs env) folder_path
       then Inl (ValueError (''The folder path '' @ quote @ folder_path @ quote @
                            '' does not exist or is not a directory!''))
       else if \<not> pexists (env_fs env) (env_font_path env)
       then Inl (FileNotFoundError (''Font file '' @ quote @ env_font_path env @ quote @ '' not found!''))
       else case parse_colors background_color text_color of
              Inl e \<Rightarrow> Inl e
            | Inr (bg, tc) \<Rightarrow>
                (case output_height images_per_row include_subfolders ?secs of
                   Inl e \<Rightarrow> Inl e
                 | Inr h \<Rightarrow>
                     (case load_fonts env of
                        Inl e \<Rightarrow> Inl e
                      | Inr font \<Rightarrow>
                          Inr (render (env\<lparr>env_now := t\<rparr>) folder_path images_per_row
                                 include_subfolders bg tc font ?secs h))))" for t
    by (simp add: generate_preview_def load_fonts_clock Let_def split: sum.splits prod.splits)
  show ?thesis
  proof (cases "isdir (env_fs env) folder_path \<and> pexists (env_fs env) (env_font_path env)")
    case False
    then show ?thesis unfolding gp by auto
  next
    case checks: True
    show ?thesis
    proof (cases "parse_colors background_color text_color")
      case (Inl e)
      with checks show ?thesis unfolding gp by simp
    next
      case (Inr colors)
      obtain bg tc where colors: "colors = (bg, tc)" by (cases colors) auto
      show ?thesis
      proof (cases "output_height images_per_row include_subfolders ?secs")
        case (Inl e)
        with checks Inr colors show ?thesis unfolding gp by simp
      next
        case h: (Inr h)
        show ?thesis
        proof (cases "load_fonts env")
          case (Inl e)
          with checks Inr colors h show ?thesis unfolding gp by simp
        next
          case font: (Inr font)
          from render_shape[of env folder_path images_per_row include_subfolders bg tc font ?secs h]
          obtain body pos where shape: "\<And>t.
             render (env\<lparr>env_now := t\<rparr>) folder_path images_per_row include_subfolders
                 bg tc font ?secs h =
               \<lparr>canvas_size = (output_width images_per_row, h), canvas_color = bg,
                drawn = body @ [DrawText pos (strftime t) tc 24]\<rparr>"
            by blast
          have "?gp t = Inr \<lparr>canvas_size = (output_width images_per_row, h), canvas_color = bg,
                drawn = body @ [DrawText pos (strftime t) tc 24]\<rparr>" for t
            unfolding gp using checks Inr colors h font by (simp add: shape)
          then show ?thesis by blast
        qed
      qed
    qed
  qed
qed

section \<open>Properties of the loop over the images\<close>

lemma generate_preview_Inr:
  assumes "isdir (env_fs env) folder_path"
    and "pexists (env_fs env) (env_font_path env)"
    and "parse_colors background_color text_color = Inr (bg_color, txt_color)"
    and "output_height images_per_row include_subfolders
           (get_image_files (env_fs env) folder_path include_subfolders) = Inr h"
    and "load_fonts env = Inr font"
  shows "generate_preview env folder_path images_per_row include_subfolders background_color text_color =
     Inr (render env folder_path images_per_row include_subfolders bg_color txt_color font
            (get_image_files (env_fs env) folder_path include_subfolders) h)"
  using assms by (simp add: generate_preview_def)

text \<open>What one image does to the state of the loop.\<close>

lemma process_image_skip:
  "thumbnail_of env txt_color item = None \<Longrightarrow>
   process_image env fp ipr sub txt_color font y n st item = st"
  by (cases st; cases item)
     (auto simp: process_image.simps thumbnail_of_def Let_def split: option.splits sum.splits)

lemma process_image_paste:
  "thumbnail_of env txt_color item = Some th \<Longrightarrow> ipr \<noteq> 0 \<Longrightarrow>
   process_image env fp ipr sub txt_color font y n (idx, ops) item =
     (idx + 1, ops @ Paste th (grid_position idx n ipr y) #
        caption_ops env fp sub txt_color font (grid_position idx n ipr y) item)"
  by (cases item; cases "grid_position idx n ipr y")
     (auto simp: process_image.simps thumbnail_of_def caption_ops_def Let_def
           split: option.splits sum.splits)

lemma pasted_append: "pasted (a @ b) = pasted a @ pasted b"
  by (induction a rule: pasted.induct) simp_all

lemma pasted_texts: "pasted (map (\<lambda>(i, line). DrawText (f i) line c sz) xs) = []"
  by (induction xs) auto

lemma pasted_caption_ops: "pasted (caption_ops env fp sub tc font pos item) = []"
  unfolding caption_ops_def by (rule pasted_texts)

lemma resize_onto_square_source:
  "resize_onto_square p w h c = Inr th \<Longrightarrow> source th = p"
  by (auto simp: resize_onto_square_def Let_def split: if_splits)

lemma make_thumbnail_source: "make_thumbnail p sz c = Inr th \<Longrightarrow> source th = p"
  by (cases sz) (auto simp: make_thumbnail_def dest: resize_onto_square_source split: if_splits)

lemma thumbnail_of_source:
  "thumbnail_of env tc item = Some th \<Longrightarrow> source th = image_path_of item"
  by (auto simp: thumbnail_of_def image_path_of_def Let_def
           dest: make_thumbnail_source split: option.splits sum.splits)

lemma process_image_eq:
  "ipr \<noteq> 0 \<Longrightarrow>
   process_image env fp ipr sub tc font y n (idx, ops) item =
     (case thumbnail_of env tc item of
        None \<Rightarrow> (idx, ops)
      | Some th \<Rightarrow> (idx + 1, ops @ Paste th (grid_position idx n ipr y) #
                        caption_ops env fp sub tc font (grid_position idx n ipr y) item))"
  by (cases "thumbnail_of env tc item")
     (simp_all add: process_image_skip process_image_paste)

lemma fold_items:
  assumes "ipr \<noteq> 0"
  shows "foldl (process_image env fp ipr sub tc font y n) (idx, ops) items = (idx', ops') \<Longrightarrow>
     idx' = idx + length (filter (decodes env tc) items) \<and>
     pasted ops' = pasted ops @
       map (\<lambda>(k, item). (image_path_of item, grid_position k n ipr y))
         (enumerate idx (filter (decodes env tc) items))"
proof (induction items arbitrary: idx ops)
  case Nil
  then show ?case by simp
next
  case (Cons item items)
  show ?case
  proof (cases "thumbnail_of env tc item")
    case None
    with Cons.prems assms
    have "foldl (process_image env fp ipr sub tc font y n) (idx, ops) items = (idx', ops')"
      by (simp add: process_image_eq)
    from Cons.IH[OF this] None show ?thesis by (simp add: decodes_def)
  next
    case (Some th)
    let ?ops = "ops @ Paste th (grid_position idx n ipr y) #
                 caption_ops env fp sub tc font (grid_position idx n ipr y) item"
    from Cons.prems assms Some
    have "foldl (process_image env fp ipr sub tc font y n) (idx + 1, ?ops) items = (idx', ops')"
      by (simp add: process_image_eq)
    from Cons.IH[OF this] Some thumbnail_of_source[OF Some] show ?thesis
      by (simp add: decodes_def pasted_append pasted_caption_ops)
  qed
qed

lemma fold_items_skip:
  assumes "thumbnail_of env tc bad = None"
  shows "foldl (process_image env fp ipr sub tc font y n) st (pre @ bad # rest) =
         foldl (process_image env fp ipr sub tc font y n) st (pre @ rest)"
  using assms by (simp add: process_image_skip)









lemma example_path: "image_path_of (''/pics'', ''b.JPG'') = ''/pics/b.JPG''"
  unfolding image_path_of_def by code_simp


lemma process_subfolders_step:
  assumes "ipr \<noteq> 0" and "s \<noteq> []"
  shows "\<exists>ops'.
     process_subfolders env fp ipr True tc font (s # rest) (y, idx, ops) =
       process_subfolders env fp ipr True tc font rest
         (y + 88 + rows_for (length s) ipr * 364, idx + length (filter (decodes env tc) s), ops') \<and>
     pasted ops' = pasted ops @
       map (\<lambda>(k, item). (image_path_of item, grid_position k (length s) ipr (y + 88)))
         (enumerate idx (filter (decodes env tc) s))"
proof -
  let ?ops1 = "ops @ [DrawText (48, y) (subfolder_title env fp s) tc 24]"
  obtain idx' ops' where f:
    "foldl (process_image env fp ipr True tc font (y + 88) (length s)) (idx, ?ops1) s = (idx', ops')"
    by (cases "foldl (process_image env fp ipr True tc font (y + 88) (length s)) (idx, ?ops1) s") auto
  from fold_items[OF assms(1) f]
  have i: "idx' = idx + length (filter (decodes env tc) s)"
    and p: "pasted ops' = pasted ops @
       map (\<lambda>(k, item). (image_path_of item, grid_position k (length s) ipr (y + 88)))
         (enumerate idx (filter (decodes env tc) s))"
    by (simp_all add: pasted_append)
  have "process_subfolders env fp ipr True tc font (s # rest) (y, idx, ops) =
       process_subfolders env fp ipr True tc font rest
         (y + 88 + rows_for (length s) ipr * 364, idx', ops')"
    unfolding f[symmetric] using assms(2) by (simp add: add.commute)
  with i p show ?thesis by blast
qed

lemma process_subfolders_step_to:
  assumes "ipr \<noteq> 0" and "s \<noteq> []"
    and "y' = y + 88 + rows_for (length s) ipr * 364"
    and "idx' = idx + length (filter (decodes env tc) s)"
    and "cells = map (\<lambda>(k, item). (image_path_of item, grid_position k (length s) ipr (y + 88)))
                   (enumerate idx (filter (decodes env tc) s))"
  shows "\<exists>ops'.
     process_subfolders env fp ipr True tc font (s # rest) (y, idx, ops) =
       process_subfolders env fp ipr True tc font rest (y', idx', ops') \<and>
     pasted ops' = pasted ops @ cells"
  unfolding assms(3,4,5) using assms(1,2) by (rule process_subfolders_step)

lemma render_pasted:
  assumes "total_images secs \<noteq> 0"
    and "process_subfolders env fp ipr sub tc font secs
           (186, 0, [DrawText (48, 48) (stats_text (total_images secs)) tc 24,
                     DrawRectangle (48, 136) (output_width ipr - 48, 138) tc]) = (y, i, ops')"
  shows "pasted (drawn (render env fp ipr sub bg tc font secs h)) = pasted ops'"
  using assms by (simp add: render_def Let_def pasted_append)

lemma decoding_env_decodes: "decodes decoding_env c item"
  by (simp add: decodes_def thumbnail_of_def decoding_env_def make_thumbnail_examples)

lemma decoding_env_simps:
  "env_fs decoding_env = example_fs"
  "env_font_path decoding_env = ''/node/font/lanting.ttf''"
  "load_fonts decoding_env = Inr ten_px"
  by (simp_all add: decoding_env_def example_env_def load_fonts_def)

lemma example_grouped_files:
  "get_image_files example_fs ''/pics'' True =
     [[(''/pics'', ''a.png''), (''/pics'', ''b.JPG'')],
      [(''/pics/x'', ''c.gif'')],
      [(''/pics/x/y'', ''d.webp''), (''/pics/x/y'', ''e.bmp'')]]"
  by (simp add: get_image_files_def walk_loop_filter sections_of_eligible example_fs_def
        example_sections)

lemma example_paths:
  "image_path_of (''/pics'', ''a.png'') = ''/pics/a.png''"
  "image_path_of (''/pics/x'', ''c.gif'') = ''/pics/x/c.gif''"
  "image_path_of (''/pics/x/y'', ''d.webp'') = ''/pics/x/y/d.webp''"
  "image_path_of (''/pics/x/y'', ''e.bmp'') = ''/pics/x/y/e.bmp''"
  unfolding image_path_of_def by code_simp+

lemma grid_position_example: "grid_position 5 12 5 y = (48, y + 364)"
  by (simp add: grid_position_def)

text \<open>
  Claim C1 places the item of index \<open>i\<close> within its section at row \<open>i div images_per_row\<close>
  and column \<open>i mod images_per_row\<close>, the index starting again at 0 in each section. The
  code never resets its running index: line 175 takes it modulo the length of the
  section. On the example tree, grouped, with every image decoding, the third section
  starts at the running index 3 and has two images: its first image gets 3 mod 2, column
  1, and its second gets 4 mod 2, column 0. In the flat layout, and in a first section,
  the cells are those of the claim (\<open>render_flat\<close>, \<open>grid_position_example\<close>).
\<close>

theorem second_section_cells_rotated:
  "\<exists>c. generate_preview decoding_env ''/pics'' 5 True (codepoints ''#FFFFFF'') (codepoints ''#000000'') = Inr c \<and>
       pasted (drawn c) =
         [(''/pics/a.png'', (48, 274)), (''/pics/b.JPG'', (352, 274)),
          (''/pics/x/c.gif'', (48, 726)),
          (''/pics/x/y/d.webp'', (352, 1178)), (''/pics/x/y/e.bmp'', (48, 1178))]"
proof -
  let ?s1 = "[(''/pics'', ''a.png''), (''/pics'', ''b.JPG'')]"
  let ?s2 = "[(''/pics/x'', ''c.gif'')]"
  let ?s3 = "[(''/pics/x/y'', ''d.webp''), (''/pics/x/y'', ''e.bmp'')]"
  let ?secs = "[?s1, ?s2, ?s3]"
  let ?ops0 = "[DrawText (48, 48) (stats_text (total_images ?secs)) (0, 0, 0) 24,
                DrawRectangle (48, 136) (output_width 5 - 48, 138) (0, 0, 0)]"
  let ?P = "process_subfolders decoding_env ''/pics'' 5 True (0, 0, 0) ten_px"
  have five: "(5::nat) \<noteq> 0" by simp
  have all: "filter (decodes decoding_env (0, 0, 0)) s = s" for s
    by (simp add: decoding_env_decodes)
  have y1: "(638::int) = 186 + 88 + rows_for (length ?s1) 5 * 364"
    and y2: "(1090::int) = 638 + 88 + rows_for (length ?s2) 5 * 364"
    and y3: "(1542::int) = 1090 + 88 + rows_for (length ?s3) 5 * 364"
    by (simp_all add: rows_for_def)
  have i1: "(2::nat) = 0 + length (filter (decodes decoding_env (0, 0, 0)) ?s1)"
    and i2: "(3::nat) = 2 + length (filter (decodes decoding_env (0, 0, 0)) ?s2)"
    and i3: "(5::nat) = 3 + length (filter (decodes decoding_env (0, 0, 0)) ?s3)"
    by (simp_all add: decoding_env_decodes)
  have c1: "[(''/pics/a.png'', (48, 274)), (''/pics/b.JPG'', (352, 274))] =
      map (\<lambda>(k, item). (image_path_of item, grid_position k (length ?s1) 5 (186 + 88)))
        (enumerate 0 (filter (decodes decoding_env (0, 0, 0)) ?s1))"
    by (simp add: decoding_env_decodes grid_position_def example_paths example_path)
  have c2: "[(''/pics/x/c.gif'', (48, 726))] =
      map (\<lambda>(k, item). (image_path_of item, grid_position k (length ?s2) 5 (638 + 88)))
        (enumerate 2 (filter (decodes decoding_env (0, 0, 0)) ?s2))"
    by (simp add: decoding_env_decodes grid_position_def example_paths)
  have c3: "[(''/pics/x/y/d.webp'', (352, 1178)), (''/pics/x/y/e.bmp'', (48, 1178))] =
      map (\<lambda>(k, item). (image_path_of item, grid_position k (length ?s3) 5 (1090 + 88)))
        (enumerate 3 (filter (decodes decoding_env (0, 0, 0)) ?s3))"
    by (simp add: decoding_env_decodes grid_position_def example_paths)
  from process_subfolders_step_to[OF five _ y1 i1 c1,
      where fp = "''/pics''" and font = ten_px and rest = "[?s2, ?s3]" and ops = ?ops0]
  obtain ops1 where 1: "?P ?secs (186, 0, ?ops0) = ?P [?s2, ?s3] (638, 2, ops1)"
    and p1: "pasted ops1 = pasted ?ops0 @ [(''/pics/a.png'', (48, 274)), (''/pics/b.JPG'', (352, 274))]"
    by blast
  from process_subfolders_step_to[OF five _ y2 i2 c2,
      where fp = "''/pics''" and font = ten_px and rest = "[?s3]" and ops = ops1]
  obtain ops2 where 2: "?P [?s2, ?s3] (638, 2, ops1) = ?P [?s3] (1090, 3, ops2)"
    and p2: "pasted ops2 = pasted ops1 @ [(''/pics/x/c.gif'', (48, 726))]"
    by blast
  from process_subfolders_step_to[OF five _ y3 i3 c3,
      where fp = "''/pics''" and font = ten_px and rest = "[]" and ops = ops2]
  obtain ops3 where 3: "?P [?s3] (1090, 3, ops2) = ?P [] (1542, 5, ops3)"
    and p3: "pasted ops3 = pasted ops2 @
        [(''/pics/x/y/d.webp'', (352, 1178)), (''/pics/x/y/e.bmp'', (48, 1178))]"
    by blast
  have run: "?P ?secs (186, 0, ?ops0) = (1542, 5, ops3)"
    unfolding 1 2 3 by simp
  have tot: "total_images ?secs \<noteq> 0" by (simp add: total_images_def)
  have a: "isdir (env_fs decoding_env) ''/pics''"
    by (simp add: decoding_env_simps example_fs_def)
  have b: "pexists (env_fs decoding_env) (env_font_path decoding_env)"
    by (simp add: decoding_env_simps example_fs_def)
  have files: "get_image_files (env_fs decoding_env) ''/pics'' True = ?secs"
    by (simp add: decoding_env_simps example_grouped_files)
  have h: "output_height 5 True (get_image_files (env_fs decoding_env) ''/pics'' True) = Inr 1680"
    unfolding files by (simp add: output_height_def total_images_def rows_for_def)
  from generate_preview_Inr[OF a b example_colors h decoding_env_simps(3)]
  have gp: "generate_preview decoding_env ''/pics'' 5 True (codepoints ''#FFFFFF'') (codepoints ''#000000'') =
      Inr (render decoding_env ''/pics'' 5 True (255, 255, 255) (0, 0, 0) ten_px ?secs 1680)"
    unfolding files .
  have p0: "pasted ?ops0 = []" by simp
  from render_pasted[OF tot run, of "(255, 255, 255)" 1680] p0 p1 p2 p3
  have "pasted (drawn (render decoding_env ''/pics'' 5 True (255, 255, 255) (0, 0, 0) ten_px ?secs 1680)) =
         [(''/pics/a.png'', (48, 274)), (''/pics/b.JPG'', (352, 274)),
          (''/pics/x/c.gif'', (48, 726)),
          (''/pics/x/y/d.webp'', (352, 1178)), (''/pics/x/y/e.bmp'', (48, 1178))]"
    by simp
  with gp show ?thesis by simp
qed


end
